theory Spec2Isabelle
  imports Main "HOL-Library.Word"
begin

unbundle bit_operations_syntax

text \<open>
  A shallow embedding of the core of libtwirc (\<open>libtwirc.c\<close> and its header): the tag
  value decoder, the wire decoder, the event dispatcher, the reassembler of
  \<open>libtwirc_process_data\<close>, the receive wrapper and the handler of readiness
  notifications. Functions keep the names of the source. Constants of the system
  headers (\<open>EAGAIN\<close>, \<open>EWOULDBLOCK\<close>, the \<open>EPOLL\<close> flags) have their Linux values.
\<close>

section \<open>Bytes and C strings\<close>

text \<open>
  A C string is modelled by the list of its characters before the terminating NUL; a
  received byte span, which may hold NUL bytes, is a plain character list together with
  its length.
\<close>

abbreviation NUL :: char where "NUL \<equiv> CHR 0x00"
abbreviation SOH :: char where "SOH \<equiv> CHR 0x01"
abbreviation LF :: char where "LF \<equiv> CHR 0x0A"
abbreviation CR :: char where "CR \<equiv> CHR 0x0D"
abbreviation BSL :: char where "BSL \<equiv> CHR 0x5C"

abbreviation CRLF :: string where "CRLF \<equiv> [CR, LF]"

section \<open>Tag values: \<open>libtwirc_unescape_tag\<close>\<close>

text \<open>
  The loop of \<open>libtwirc_unescape_tag\<close>: \<open>i\<close> runs while \<open>i < (int) val_len - 1\<close>, the
  output grows by one character per round, and a recognised escape skips one more
  input character.
\<close>

function unescape_loop :: "string \<Rightarrow> nat \<Rightarrow> string \<Rightarrow> string" where
  "unescape_loop val i escaped =
     (if int i < int (length val) - 1 then
        (if val ! i = BSL then
           (if val ! (i + 1) = CHR '':'' then unescape_loop val (i + 2) (escaped @ '';'')
            else if val ! (i + 1) = CHR ''s'' then unescape_loop val (i + 2) (escaped @ '' '')
            else if val ! (i + 1) = BSL then unescape_loop val (i + 2) (escaped @ [BSL])
            else if val ! (i + 1) = CHR ''r'' then unescape_loop val (i + 2) (escaped @ [CR])
            else if val ! (i + 1) = CHR ''n'' then unescape_loop val (i + 2) (escaped @ [LF])
            else unescape_loop val (i + 1) (escaped @ [val ! i]))
         else unescape_loop val (i + 1) (escaped @ [val ! i]))
      else escaped)"
  by pat_completeness auto
termination
  by (relation "measure (\<lambda>(val, i, escaped). length val - i)") auto

definition libtwirc_unescape_tag :: "string \<Rightarrow> string" where
  "libtwirc_unescape_tag val = unescape_loop val 0 []"

section \<open>Searching and cutting C strings\<close>

text \<open>
  \<open>strstr haystack needle\<close> is the offset of the first occurrence of \<open>needle\<close>, or
  \<open>None\<close> where C's \<open>strstr\<close> returns \<open>NULL\<close>.
\<close>

fun strstr :: "string \<Rightarrow> string \<Rightarrow> nat option" where
  "strstr [] sep = (if sep = [] then Some 0 else None)"
| "strstr (c # cs) sep =
     (if take (length sep) (c # cs) = sep then Some 0
      else map_option Suc (strstr cs sep))"

text \<open>
  \<open>strtok\<close> called in a loop with one delimiter: the non-empty pieces between the
  delimiters, in order.
\<close>

fun strtok_pieces :: "char \<Rightarrow> string \<Rightarrow> string \<Rightarrow> string list" where
  "strtok_pieces d cur [] = (if cur = [] then [] else [cur])"
| "strtok_pieces d cur (c # cs) =
     (if c = d then (if cur = [] then strtok_pieces d [] cs else cur # strtok_pieces d [] cs)
      else strtok_pieces d (cur @ [c]) cs)"

text \<open>
  Memory faults of the C code are results of the model: a read through a null (or
  near-null) pointer, an access outside an array, a write past the end of a buffer.
\<close>

datatype error = NullDeref | OutOfBounds | Overflow

section \<open>The wire decoder\<close>

record twirc_tag =
  key :: string
  "value" :: string

definition libtwirc_create_tag :: "string \<Rightarrow> string \<Rightarrow> twirc_tag" where
  "libtwirc_create_tag k val = \<lparr>key = k, value = libtwirc_unescape_tag val\<rparr>"

text \<open>One round of the tag loop of \<open>libtwirc_parse_tags\<close>, for the token \<open>tag\<close>.\<close>

definition parse_one_tag :: "string \<Rightarrow> twirc_tag" where
  "parse_one_tag tag =
     (case strstr tag ''='' of
        None \<Rightarrow> libtwirc_create_tag tag []
      | Some q \<Rightarrow>
          if drop (q + 1) tag = [] then libtwirc_create_tag tag (drop (q + 1) tag)
          else libtwirc_create_tag (take q tag) (drop (q + 1) tag))"

text \<open>
  \<open>libtwirc_parse_tags\<close> returns the tags (\<open>None\<close> for the null array), their number
  and the rest of the message. A message that starts with \<open>@\<close> and holds no space makes
  the source return the pointer \<open>NULL + 1\<close>, which the next parser reads through. The
  capacity of the tag array (16, grown by half when full) is checked before every store
  and does not show in the result.
\<close>

definition libtwirc_parse_tags :: "string \<Rightarrow> error + (twirc_tag list option \<times> nat \<times> string)" where
  "libtwirc_parse_tags msg =
     (if take 1 msg \<noteq> ''@'' then Inr (None, 0, msg)
      else case strstr msg '' '' of
        None \<Rightarrow> Inl NullDeref
      | Some nxt \<Rightarrow>
          (let tag_str = take (nxt - 1) (drop 1 msg);
               ts = map parse_one_tag (strtok_pieces (CHR '';'') [] tag_str)
           in Inr (Some ts, length ts, drop (nxt + 1) msg)))"

definition libtwirc_parse_prefix :: "string \<Rightarrow> error + (string option \<times> string)" where
  "libtwirc_parse_prefix msg =
     (if take 1 msg \<noteq> '':'' then Inr (None, msg)
      else case strstr msg '' '' of
        None \<Rightarrow> Inl NullDeref
      | Some nxt \<Rightarrow> Inr (Some (take (nxt - 1) (drop 1 msg)), drop (nxt + 1) msg))"

text \<open>
  \<open>libtwirc_parse_command\<close>: with no space left, the source copies
  \<open>strlen(msg) - 2\<close> characters, a \<open>size_t\<close> subtraction that wraps for lengths 0 and 1
  (64-bit \<open>size_t\<close>). The second component is the parameter section, \<open>None\<close> for
  the null pointer.
\<close>

definition size_t_sub :: "nat \<Rightarrow> nat \<Rightarrow> nat" where
  "size_t_sub a b = (a + 2 ^ 64 - b mod 2 ^ 64) mod 2 ^ 64"

definition libtwirc_parse_command :: "string \<Rightarrow> string \<times> string option" where
  "libtwirc_parse_command msg =
     (case strstr msg '' '' of
        None \<Rightarrow> (take (size_t_sub (length msg) 2) msg, None)
      | Some nxt \<Rightarrow> (take nxt msg, Some (drop (nxt + 1) msg)))"

text \<open>
  The character loop of \<open>libtwirc_parse_params\<close>: \<open>i\<close> is the position, \<open>from\<close> the
  start of the current token, \<open>trailing\<close> the flag, \<open>toks\<close> the tokens stored so far.
  The pointer array (capacity 4, doubled when full) is grown before any store, so the
  capacity is left out.
\<close>

function params_loop :: "string \<Rightarrow> nat \<Rightarrow> nat \<Rightarrow> bool \<Rightarrow> string list \<Rightarrow> bool \<times> string list" where
  "params_loop p_str i from trailing toks =
     (if i < length p_str then
        (if p_str ! i = CHR '':'' \<and> \<not> trailing then
           params_loop p_str (i + 1) (i + 1) True toks
         else if p_str ! i = CHR '' '' \<and> \<not> trailing then
           params_loop p_str (i + 1) (i + 1) trailing (toks @ [take (i - from) (drop from p_str)])
         else if i = length p_str - 1 then
           params_loop p_str (i + 1) from trailing (toks @ [take ((i + 1) - from) (drop from p_str)])
         else params_loop p_str (i + 1) from trailing toks)
      else (trailing, toks))"
  by pat_completeness auto
termination
  by (relation "measure (\<lambda>(p_str, i, from, trailing, toks). length p_str - i)") auto

definition libtwirc_parse_params :: "string option \<Rightarrow> string list option \<times> nat \<times> int" where
  "libtwirc_parse_params msg =
     (case msg of
        None \<Rightarrow> (None, 0, - 1)
      | Some p_str \<Rightarrow>
          (case params_loop p_str 0 0 False [] of
             (trailing, toks) \<Rightarrow>
               (Some toks, length toks, if trailing then int (length toks) - 1 else - 1)))"

definition libtwirc_prefix_to_nick :: "string \<Rightarrow> string option" where
  "libtwirc_prefix_to_nick p = (case strstr p ''!'' of None \<Rightarrow> None | Some n \<Rightarrow> Some (take n p))"

section \<open>Connection state, sends and callbacks\<close>

text \<open>
  The event handed to the dispatcher has the fields of the header's message struct;
  pointers that may be null are options.
\<close>

record twirc_event =
  tags :: "twirc_tag list option"
  num_tags :: nat
  prefix :: "string option"
  nick :: "string option"
  channel :: "string option"
  command :: string
  params :: "string list option"
  num_params :: nat
  trailing :: int

datatype slot =
  Connect | Welcome | Ping | Join | Part | Channel | Privmsg | Whisper | Notice | Clearchat | Unknown

text \<open>
  What the program does to the outside is kept as a trace, oldest first: a message
  entering \<open>libtwirc_process_msg\<close> (the line that function prints first), the bytes
  handed to the transport's send primitive, and a call of a handler of the callback
  table with its event argument (\<open>None\<close> for the null pointer). Handlers are user code;
  the model records the call and takes the handler as returning without touching the
  state, as the default handler \<open>libtwirc_callback_null\<close> does.
\<close>

datatype action = Msg_in string | Sent string | Called slot "twirc_event option"

record twirc_login =
  l_host :: string
  l_port :: string
  l_nick :: string
  l_pass :: string

record twirc_state =
  status :: "8 word"
  running :: int
  buffer :: string
  login :: twirc_login
  trace :: "action list"

definition TWIRC_STATUS_DISCONNECTED :: "8 word" where "TWIRC_STATUS_DISCONNECTED = 0"
definition TWIRC_STATUS_CONNECTING :: "8 word" where "TWIRC_STATUS_CONNECTING = 1"
definition TWIRC_STATUS_CONNECTED :: "8 word" where "TWIRC_STATUS_CONNECTED = 2"
definition TWIRC_STATUS_AUTHENTICATING :: "8 word" where "TWIRC_STATUS_AUTHENTICATING = 4"
definition TWIRC_STATUS_AUTHENTICATED :: "8 word" where "TWIRC_STATUS_AUTHENTICATED = 8"

definition TWIRC_MESSAGE_SIZE :: nat where "TWIRC_MESSAGE_SIZE = 2048"
definition TWIRC_BUFFER_SIZE :: nat where "TWIRC_BUFFER_SIZE = TWIRC_MESSAGE_SIZE"

text \<open>
  The parts the source takes from elsewhere: \<open>stcpnb_send\<close>, whose result for a buffer
  may depend on everything done so far, and the constant \<open>TWIRC_PONG_SIZE\<close>.
\<close>

record env =
  stcpnb_send :: "action list \<Rightarrow> string \<Rightarrow> int"
  TWIRC_PONG_SIZE :: nat

text \<open>The state \<open>twirc_init\<close> returns.\<close>

definition twirc_init :: twirc_state where
  "twirc_init =
     \<lparr>status = TWIRC_STATUS_DISCONNECTED, running = 0, buffer = [],
      login = \<lparr>l_host = [], l_port = [], l_nick = [], l_pass = []\<rparr>, trace = []\<rparr>"

text \<open>\<open>snprintf(dst, n, ...)\<close> keeps at most \<open>n - 1\<close> characters.\<close>

definition snprintf :: "nat \<Rightarrow> string \<Rightarrow> string" where
  "snprintf n s = take (n - 1) s"

text \<open>
  \<open>twirc_send\<close> cuts the message to \<open>TWIRC_BUFFER_SIZE - 3\<close> characters, appends CR LF
  and the terminator, and hands all \<open>msg_len + 3\<close> bytes to \<open>stcpnb_send\<close>, whose
  result it returns.
\<close>

definition twirc_send :: "env \<Rightarrow> twirc_state \<Rightarrow> string \<Rightarrow> twirc_state \<times> int" where
  "twirc_send e s msg =
     (let msg_len = min (length msg) (TWIRC_BUFFER_SIZE - 3);
          buf = take msg_len msg @ [CR, LF, NUL];
          ret = stcpnb_send e (trace s) buf
      in (s\<lparr>trace := trace s @ [Sent buf]\<rparr>, ret))"

definition twirc_cmd_pass :: "env \<Rightarrow> twirc_state \<Rightarrow> string \<Rightarrow> twirc_state \<times> int" where
  "twirc_cmd_pass e s pass = twirc_send e s (snprintf TWIRC_BUFFER_SIZE (''PASS '' @ pass))"

definition twirc_cmd_nick :: "env \<Rightarrow> twirc_state \<Rightarrow> string \<Rightarrow> twirc_state \<times> int" where
  "twirc_cmd_nick e s n = twirc_send e s (snprintf TWIRC_BUFFER_SIZE (''NICK '' @ n))"

definition twirc_cmd_req_tags :: "env \<Rightarrow> twirc_state \<Rightarrow> twirc_state \<times> int" where
  "twirc_cmd_req_tags e s = twirc_send e s ''CAP REQ :twitch.tv/tags''"

definition twirc_cmd_req_membership :: "env \<Rightarrow> twirc_state \<Rightarrow> twirc_state \<times> int" where
  "twirc_cmd_req_membership e s = twirc_send e s ''CAP REQ :twitch.tv/membership''"

definition twirc_cmd_req_commands :: "env \<Rightarrow> twirc_state \<Rightarrow> twirc_state \<times> int" where
  "twirc_cmd_req_commands e s = twirc_send e s ''CAP REQ :twitch.tv/commands''"

text \<open>\<open>twirc_cmd_pong\<close>: the parameter may be the null pointer.\<close>

definition twirc_cmd_pong :: "env \<Rightarrow> twirc_state \<Rightarrow> string option \<Rightarrow> twirc_state \<times> int" where
  "twirc_cmd_pong e s param =
     twirc_send e s
       (snprintf (TWIRC_PONG_SIZE e)
          (''PONG '' @
           (case param of None \<Rightarrow> '':'' | Some p \<Rightarrow> if take 1 p = '':'' then [] else '':'') @
           (case param of None \<Rightarrow> [] | Some p \<Rightarrow> p)))"

definition twirc_capreq :: "env \<Rightarrow> twirc_state \<Rightarrow> twirc_state \<times> int" where
  "twirc_capreq e s =
     (let s1 = fst (twirc_cmd_req_tags e s);
          s2 = fst (twirc_cmd_req_membership e s1);
          s3 = fst (twirc_cmd_req_commands e s2)
      in (s3, 0))"

definition twirc_auth :: "env \<Rightarrow> twirc_state \<Rightarrow> twirc_state \<times> int" where
  "twirc_auth e s =
     (case twirc_cmd_pass e s (l_pass (login s)) of
        (s1, r1) \<Rightarrow>
          if r1 = - 1 then (s1, - 1)
          else (case twirc_cmd_nick e s1 (l_nick (login s1)) of
                  (s2, r2) \<Rightarrow> if r2 = - 1 then (s2, - 1) else (s2, 0)))"

definition libtwirc_on_connect :: "env \<Rightarrow> twirc_state \<Rightarrow> twirc_state \<times> int" where
  "libtwirc_on_connect e s =
     (if status s AND TWIRC_STATUS_AUTHENTICATING \<noteq> 0 then (s, - 1)
      else if status s AND TWIRC_STATUS_AUTHENTICATED \<noteq> 0 then (s, - 1)
      else (let s1 = fst (twirc_capreq e s);
                s2 = fst (twirc_auth e s1)
            in (s2\<lparr>status := status s2 OR TWIRC_STATUS_AUTHENTICATING\<rparr>, 0)))"

text \<open>Calling the handler in slot \<open>c\<close> of the callback table.\<close>

definition callback :: "slot \<Rightarrow> twirc_event option \<Rightarrow> twirc_state \<Rightarrow> twirc_state" where
  "callback c ev s = s\<lparr>trace := trace s @ [Called c ev]\<rparr>"

section \<open>The event dispatcher\<close>

text \<open>
  \<open>evt->params[i]\<close>: the array is null when the message had no parameter section;
  otherwise it holds the parameters followed by one null pointer.
\<close>

definition param_at :: "twirc_event \<Rightarrow> nat \<Rightarrow> error + string option" where
  "param_at ev i =
     (case params ev of
        None \<Rightarrow> Inl NullDeref
      | Some ps \<Rightarrow>
          if i < length ps then Inr (Some (ps ! i))
          else if i = length ps then Inr None
          else Inl OutOfBounds)"

definition libtwirc_on_welcome :: "twirc_state \<Rightarrow> twirc_event \<Rightarrow> twirc_state \<times> int" where
  "libtwirc_on_welcome s ev = (s\<lparr>status := status s OR TWIRC_STATUS_AUTHENTICATED\<rparr>, 0)"

definition libtwirc_on_globaluserstate :: "twirc_state \<Rightarrow> twirc_event \<Rightarrow> twirc_state \<times> int" where
  "libtwirc_on_globaluserstate s ev = (s\<lparr>status := status s OR TWIRC_STATUS_AUTHENTICATED\<rparr>, 0)"

definition libtwirc_on_ping :: "env \<Rightarrow> twirc_state \<Rightarrow> twirc_event \<Rightarrow> error + twirc_state \<times> int" where
  "libtwirc_on_ping e s ev =
     (case param_at ev 0 of Inl f \<Rightarrow> Inl f | Inr p \<Rightarrow> Inr (twirc_cmd_pong e s p))"

definition libtwirc_on_clearchat :: "twirc_state \<Rightarrow> twirc_event \<Rightarrow> twirc_state \<times> int" where
  "libtwirc_on_clearchat s ev = (s, - 1)"

definition libtwirc_on_whisper :: "twirc_state \<Rightarrow> twirc_event \<Rightarrow> twirc_state \<times> int" where
  "libtwirc_on_whisper s ev = (s, - 1)"

text \<open>
  \<open>libtwirc_dispatch_evt\<close> returns the state, the event (whose channel field it may
  set) and its result code. The control-message test reads the first and the last
  character of the second parameter; on the empty string the first test fails and the
  second is not evaluated.
\<close>

definition libtwirc_dispatch_evt ::
  "env \<Rightarrow> twirc_state \<Rightarrow> twirc_event \<Rightarrow> error + twirc_state \<times> twirc_event \<times> int" where
  "libtwirc_dispatch_evt e s ev =
     (if command ev = ''001'' then
        (let s1 = fst (libtwirc_on_welcome s ev) in Inr (callback Welcome (Some ev) s1, ev, 0))
      else if command ev = ''JOIN'' then
        (case param_at ev 0 of
           Inl f \<Rightarrow> Inl f
         | Inr p0 \<Rightarrow>
             (let ev1 = ev\<lparr>channel := p0\<rparr> in Inr (callback Join (Some ev1) s, ev1, 0)))
      else if command ev = ''PING'' then
        (case libtwirc_on_ping e s ev of
           Inl f \<Rightarrow> Inl f
         | Inr (s1, r) \<Rightarrow> Inr (callback Ping (Some ev) s1, ev, 0))
      else if command ev = ''PRIVMSG'' \<and> 2 \<le> num_params ev then
        (case param_at ev 0 of
           Inl f \<Rightarrow> Inl f
         | Inr p0 \<Rightarrow>
             (let ev1 = ev\<lparr>channel := p0\<rparr> in
              case param_at ev1 1 of
                Inl f \<Rightarrow> Inl f
              | Inr None \<Rightarrow> Inl NullDeref
              | Inr (Some t) \<Rightarrow>
                  if t \<noteq> [] \<and> hd t = SOH \<and> last t = SOH then Inr (s, ev1, 0)
                  else Inr (callback Privmsg (Some ev1) s, ev1, 0)))
      else if command ev = ''CLEARCHAT'' then
        (let s1 = fst (libtwirc_on_clearchat s ev) in Inr (callback Clearchat (Some ev) s1, ev, 0))
      else if command ev = ''WHISPER'' then
        (let s1 = fst (libtwirc_on_whisper s ev) in Inr (callback Whisper (Some ev) s1, ev, 0))
      else Inr (s, ev, - 1))"

section \<open>Decoding and processing one message\<close>

text \<open>
  The decoding steps of \<open>libtwirc_process_msg\<close>, in the source's order: tags, prefix,
  command, parameters, and the nickname taken from the prefix. The channel field is
  left null.
\<close>

definition decode_msg :: "string \<Rightarrow> error + twirc_event" where
  "decode_msg msg =
     (case libtwirc_parse_tags msg of
        Inl f \<Rightarrow> Inl f
      | Inr (tgs, ntags, m1) \<Rightarrow>
          (case libtwirc_parse_prefix m1 of
             Inl f \<Rightarrow> Inl f
           | Inr (pfx, m2) \<Rightarrow>
               (case libtwirc_parse_command m2 of
                  (cmd, m3) \<Rightarrow>
                    (case libtwirc_parse_params m3 of
                       (ps, np, t_idx) \<Rightarrow>
                         Inr \<lparr>tags = tgs, num_tags = ntags, prefix = pfx,
                              nick = (case pfx of None \<Rightarrow> None | Some p \<Rightarrow> libtwirc_prefix_to_nick p),
                              channel = None, command = cmd, params = ps, num_params = np,
                              trailing = t_idx\<rparr>))))"

text \<open>
  \<open>libtwirc_process_msg\<close> decodes, dispatches and drops the dispatcher's result code;
  its own result is always 0, so the model returns the state alone.
\<close>

definition libtwirc_process_msg :: "env \<Rightarrow> twirc_state \<Rightarrow> string \<Rightarrow> error + twirc_state" where
  "libtwirc_process_msg e s msg =
     (let s0 = s\<lparr>trace := trace s @ [Msg_in msg]\<rparr> in
      case decode_msg msg of
        Inl f \<Rightarrow> Inl f
      | Inr ev \<Rightarrow>
          (case libtwirc_dispatch_evt e s0 ev of
             Inl f \<Rightarrow> Inl f
           | Inr (s1, ev1, r) \<Rightarrow> Inr s1))"

section \<open>The reassembler\<close>

text \<open>
  \<open>libtwirc_next_chunk dest dlen src slen off\<close> returns the new content of \<open>dest\<close> and
  the offset of the next chunk, \<open>None\<close> standing for \<open>(size_t) -1\<close>. The source
  computes \<open>slen - off\<close> in \<open>size_t\<close>: an offset past \<open>slen\<close> wraps to a huge length
  and the copy reads past the span.
\<close>

definition libtwirc_next_chunk ::
  "string \<Rightarrow> nat \<Rightarrow> string \<Rightarrow> nat \<Rightarrow> nat \<Rightarrow> error + string \<times> nat option" where
  "libtwirc_next_chunk dest dlen src slen off =
     (if slen < off \<or> length src < slen then Inl OutOfBounds
      else
        (let chunk_len = slen - off in
         if chunk_len \<le> 0 then Inr (dest, None)
         else
           (let max_len = (if dlen < chunk_len then dlen else chunk_len);
                copied = takeWhile (\<lambda>c. c \<noteq> NUL) (take max_len (drop off src));
                cpy_len = length copied
            in if cpy_len = dlen then Inr ([], None)
               else
                 (let new_off = off + cpy_len + 1
                  in Inr (copied, Some (if slen \<le> new_off then slen else new_off))))))"

text \<open>
  \<open>libtwirc_shift_token dest src sep\<close> returns the token length, the new \<open>dest\<close> and
  the new \<open>src\<close>. The result 0 stands both for "no separator" and for a separator
  found at the very start of \<open>src\<close>; in the second case \<open>src\<close> has lost the separator.
\<close>

definition libtwirc_shift_token :: "string \<Rightarrow> string \<Rightarrow> string \<Rightarrow> nat \<times> string \<times> string" where
  "libtwirc_shift_token dest src sep =
     (case strstr src sep of
        None \<Rightarrow> (0, dest, src)
      | Some sep_pos \<Rightarrow>
          (let sep_len = length sep;
               new_len = length (drop sep_pos src) - sep_len;
               tok_len = sep_pos
           in (tok_len, take tok_len src, take new_len (drop (sep_pos + sep_len) src))))"

text \<open>
  The first loop of \<open>libtwirc_process_data\<close>: every chunk is appended to the backlog
  with \<open>strcat\<close>; the backlog holds \<open>2 * TWIRC_MESSAGE_SIZE\<close> bytes, terminator included.
  The source keeps the offset in an \<open>int\<close>; span lengths stay below
  \<open>TWIRC_BUFFER_SIZE\<close>, so the conversion keeps the value.
\<close>

function chunk_loop :: "twirc_state \<Rightarrow> string \<Rightarrow> string \<Rightarrow> nat \<Rightarrow> nat \<Rightarrow> error + twirc_state" where
  "chunk_loop s chunk buf len off =
     (case libtwirc_next_chunk chunk (len + 1) buf len off of
        Inl f \<Rightarrow> Inl f
      | Inr (chunk', None) \<Rightarrow> Inr s
      | Inr (chunk', Some off') \<Rightarrow>
          if 0 < off' then
            (if 2 * TWIRC_MESSAGE_SIZE \<le> length (buffer s) + length chunk' then Inl Overflow
             else chunk_loop (s\<lparr>buffer := buffer s @ chunk'\<rparr>) chunk' buf len off')
          else Inr s)"
  by pat_completeness auto
termination
  by (relation "measure (\<lambda>(s, chunk, buf, len, off). len - off)")
     (auto simp: libtwirc_next_chunk_def Let_def split: if_splits)

text \<open>
  The second loop of \<open>libtwirc_process_data\<close>: while \<open>libtwirc_shift_token\<close> returns a
  positive length, the token in the local array \<open>msg\<close> (\<open>TWIRC_MESSAGE_SIZE\<close> bytes,
  terminator included) is processed.
\<close>

function extract_loop :: "env \<Rightarrow> twirc_state \<Rightarrow> string \<Rightarrow> error + twirc_state" where
  "extract_loop e s msg =
     (case libtwirc_shift_token msg (buffer s) CRLF of
        (tok_len, msg', src') \<Rightarrow>
          if TWIRC_MESSAGE_SIZE \<le> tok_len then Inl Overflow
          else if 0 < tok_len then
            (case libtwirc_process_msg e (s\<lparr>buffer := src'\<rparr>) msg' of
               Inl f \<Rightarrow> Inl f
             | Inr s' \<Rightarrow> extract_loop e s' msg')
          else Inr (s\<lparr>buffer := src'\<rparr>))"
  by pat_completeness auto
termination
proof (relation "measure (\<lambda>(e, s, msg). length (buffer s))", goal_cases)
  case 1
  show ?case by simp
next
  case (2 e s msg tok_len y msg' src' s')
  have bound: "p + length sep \<le> length h" if "strstr h sep = Some p" for h sep p
    using that
  proof (induction h arbitrary: p)
    case Nil
    then show ?case by (simp split: if_splits)
  next
    case (Cons c cs)
    show ?case
    proof (cases "take (length sep) (c # cs) = sep")
      case True
      have "length (take (length sep) (c # cs)) \<le> length (c # cs)"
        by simp
      with True have "length sep \<le> length (c # cs)"
        by simp
      with True Cons.prems show ?thesis by simp
    next
      case False
      with Cons.prems obtain q where "strstr cs sep = Some q" "p = Suc q" by auto
      with Cons.IH show ?thesis by fastforce
    qed
  qed
  from 2 have b: "buffer s' = src'"
    by (auto simp: libtwirc_process_msg_def libtwirc_dispatch_evt_def libtwirc_on_welcome_def
        libtwirc_on_ping_def libtwirc_on_clearchat_def libtwirc_on_whisper_def twirc_cmd_pong_def
        twirc_send_def callback_def Let_def
        split: if_splits sum.splits option.splits prod.splits)
  from 2 obtain p where p: "strstr (buffer s) CRLF = Some p" and src: "src' = drop (p + 2) (buffer s)"
    by (auto simp: libtwirc_shift_token_def Let_def split: option.splits)
  from bound [OF p] have "p + 2 \<le> length (buffer s)" by simp
  with b src show ?case by simp
qed

definition libtwirc_process_data :: "env \<Rightarrow> twirc_state \<Rightarrow> string \<Rightarrow> nat \<Rightarrow> error + twirc_state" where
  "libtwirc_process_data e s buf len =
     (case chunk_loop s [] buf len 0 of
        Inl f \<Rightarrow> Inl f
      | Inr s1 \<Rightarrow> extract_loop e s1 [])"

section \<open>Receiving\<close>

text \<open>
  Modelled from the spec: the transport collaborator's receive primitive
  \<open>stcpnb_receive\<close>, whose source is not part of the files at hand. The spec gives its
  outcomes as bytes read, would-block, or error; one call either stores some bytes
  (at most the number asked for) and returns their count, or returns -1 with an error
  number in \<open>errno\<close>. Bytes stored past the end of the buffer are a fault.
\<close>

datatype rx = Rx_bytes string | Rx_errno nat

definition EAGAIN :: nat where "EAGAIN = 11"
definition EWOULDBLOCK :: nat where "EWOULDBLOCK = 11"

definition stcpnb_receive :: "rx \<Rightarrow> string \<Rightarrow> nat \<Rightarrow> error + int \<times> nat \<times> string" where
  "stcpnb_receive r buf n =
     (case r of
        Rx_bytes bs \<Rightarrow>
          if length buf < length (take n bs) then Inl Overflow
          else Inr (int (length (take n bs)), 0, take n bs @ drop (length (take n bs)) buf)
      | Rx_errno en \<Rightarrow> Inr (- 1, en, buf))"

text \<open>The conversion of a \<open>ssize_t\<close> value to the 32-bit \<open>int\<close> that \<open>twirc_recv\<close> returns.\<close>

definition ssize_to_int :: "int \<Rightarrow> int" where
  "ssize_to_int x = (x + 2 ^ 31) mod 2 ^ 32 - 2 ^ 31"

text \<open>
  \<open>twirc_recv\<close> returns its result code and the buffer of \<open>len\<close> bytes. It asks for
  \<open>len - 1\<close> bytes, a \<open>size_t\<close> subtraction, and stores \<open>buf[res_len] = 0\<close> before it
  tests the result: after a failed receive \<open>res_len\<close> is -1 and the store lands on the
  byte before the array, a fault, so the tests on \<open>errno\<close> that follow in the source are
  reached only through that store.
\<close>

definition twirc_recv :: "rx \<Rightarrow> nat \<Rightarrow> error + int \<times> string" where
  "twirc_recv r len =
     (case stcpnb_receive r (replicate len NUL) (size_t_sub len 1) of
        Inl f \<Rightarrow> Inl f
      | Inr (res_len, errno, buf) \<Rightarrow>
          if res_len < 0 \<or> int len \<le> res_len then Inl OutOfBounds
          else
            (let buf' = buf[nat res_len := NUL] in
             if res_len = - 1 then
               (if errno = EAGAIN \<or> errno = EWOULDBLOCK then Inr (0, buf') else Inr (- 1, buf'))
             else Inr (ssize_to_int res_len, buf')))"

section \<open>Handling a readiness notification\<close>

definition EPOLLIN :: "32 word" where "EPOLLIN = 0x001"
definition EPOLLOUT :: "32 word" where "EPOLLOUT = 0x004"
definition EPOLLERR :: "32 word" where "EPOLLERR = 0x008"
definition EPOLLHUP :: "32 word" where "EPOLLHUP = 0x010"
definition EPOLLRDHUP :: "32 word" where "EPOLLRDHUP = 0x2000"

text \<open>
  The receive loop of \<open>libtwirc_handle_event\<close>. The second argument lists the outcomes
  of the coming receive calls; when it is used up the transport has nothing more and the
  next receive fails with \<open>EAGAIN\<close>. The loop goes on while \<open>twirc_recv\<close> returns a
  positive count.
\<close>

fun recv_loop :: "env \<Rightarrow> twirc_state \<Rightarrow> rx list \<Rightarrow> error + twirc_state \<times> rx list" where
  "recv_loop e s [] =
     (case twirc_recv (Rx_errno EAGAIN) TWIRC_BUFFER_SIZE of
        Inl f \<Rightarrow> Inl f
      | Inr (bytes_received, buf) \<Rightarrow> Inr (s, []))"
| "recv_loop e s (r # wire) =
     (case twirc_recv r TWIRC_BUFFER_SIZE of
        Inl f \<Rightarrow> Inl f
      | Inr (bytes_received, buf) \<Rightarrow>
          if 0 < bytes_received then
            (case libtwirc_process_data e s buf (nat bytes_received) of
               Inl f \<Rightarrow> Inl f
             | Inr s' \<Rightarrow> recv_loop e s' wire)
          else Inr (s, wire))"

definition read_branch :: "env \<Rightarrow> 32 word \<Rightarrow> twirc_state \<Rightarrow> rx list \<Rightarrow> error + twirc_state \<times> rx list" where
  "read_branch e events s wire =
     (if events AND EPOLLIN \<noteq> 0 then recv_loop e s wire else Inr (s, wire))"

text \<open>
  \<open>libtwirc_handle_event\<close>: the readable block, then the writable block, then the three
  hangup and error tests. The callback table is taken as filled (as \<open>twirc_init\<close>
  leaves it), so the connect handler is called.
\<close>

definition libtwirc_handle_event ::
  "env \<Rightarrow> 32 word \<Rightarrow> twirc_state \<Rightarrow> rx list \<Rightarrow> error + twirc_state \<times> rx list \<times> int" where
  "libtwirc_handle_event e events s wire =
     (case read_branch e events s wire of
        Inl f \<Rightarrow> Inl f
      | Inr (s1, wire') \<Rightarrow>
          (let s2 =
             (if events AND EPOLLOUT \<noteq> 0 \<and> status s1 AND TWIRC_STATUS_CONNECTING \<noteq> 0 then
                callback Connect None
                  (fst (libtwirc_on_connect e (s1\<lparr>status := TWIRC_STATUS_CONNECTED\<rparr>)))
              else s1)
           in if events AND EPOLLRDHUP \<noteq> 0 then
                Inr (s2\<lparr>status := TWIRC_STATUS_DISCONNECTED, running := 0\<rparr>, wire', - 1)
              else if events AND EPOLLHUP \<noteq> 0 then
                Inr (s2\<lparr>status := TWIRC_STATUS_DISCONNECTED, running := 0\<rparr>, wire', - 1)
              else if events AND EPOLLERR \<noteq> 0 then
                Inr (s2\<lparr>status := TWIRC_STATUS_DISCONNECTED, running := 0\<rparr>, wire', - 1)
              else Inr (s2, wire', 0)))"

section \<open>Reading the trace\<close>

fun msgs_in :: "action list \<Rightarrow> string list" where
  "msgs_in [] = []"
| "msgs_in (Msg_in m # as) = m # msgs_in as"
| "msgs_in (a # as) = msgs_in as"

fun sends :: "action list \<Rightarrow> string list" where
  "sends [] = []"
| "sends (Sent b # as) = b # sends as"
| "sends (a # as) = sends as"

fun calls :: "action list \<Rightarrow> slot list" where
  "calls [] = []"
| "calls (Called c ev # as) = c # calls as"
| "calls (a # as) = calls as"

section \<open>Streams, fragments and complete messages\<close>

text \<open>
  The append stage drops the NUL bytes of a span. \<open>crlf_lines\<close> reads a byte string
  from left to right and closes a line at every CR LF, as the protocol's framing does;
  it gives the complete lines in order (\<open>crlf_lines_from cur\<close> carries the line begun so
  far). \<open>messages_of\<close> keeps the non-empty lines. \<open>feed_all\<close> hands the spans of a
  fragmented stream to \<open>libtwirc_process_data\<close> one call after the other.
\<close>

definition strip_nul :: "string \<Rightarrow> string" where
  "strip_nul bs = filter (\<lambda>c. c \<noteq> NUL) bs"

fun crlf_lines_from :: "string \<Rightarrow> string \<Rightarrow> string list" where
  "crlf_lines_from cur (c # d # cs) =
     (if c = CR \<and> d = LF then cur # crlf_lines_from [] cs
      else crlf_lines_from (cur @ [c]) (d # cs))"
| "crlf_lines_from cur cs = []"

definition crlf_lines :: "string \<Rightarrow> string list" where
  "crlf_lines b = crlf_lines_from [] b"

definition messages_of :: "string \<Rightarrow> string list" where
  "messages_of b = filter (\<lambda>m. m \<noteq> []) (crlf_lines b)"

fun feed_all :: "env \<Rightarrow> twirc_state \<Rightarrow> string list \<Rightarrow> error + twirc_state" where
  "feed_all e s [] = Inr s"
| "feed_all e s (span # spans) =
     (case libtwirc_process_data e s span (length span) of
        Inl f \<Rightarrow> Inl f
      | Inr s' \<Rightarrow> feed_all e s' spans)"

section \<open>The handshake sequence\<close>

text \<open>
  \<open>send_buf msg\<close> is the buffer \<open>twirc_send\<close> builds for \<open>msg\<close>. \<open>handshake e l t0\<close> is
  the sequence the specification describes for the first writable notification, seen
  from a trace \<open>t0\<close>, with one proviso: three capability requests, the password, then
  the nickname, the nickname being left out when the transport answers the password
  send with -1.
\<close>

definition send_buf :: "string \<Rightarrow> string" where
  "send_buf msg = take (min (length msg) (TWIRC_BUFFER_SIZE - 3)) msg @ [CR, LF, NUL]"

definition handshake :: "env \<Rightarrow> twirc_login \<Rightarrow> action list \<Rightarrow> action list" where
  "handshake e l t0 =
     (let caps = [Sent (send_buf ''CAP REQ :twitch.tv/tags''),
                  Sent (send_buf ''CAP REQ :twitch.tv/membership''),
                  Sent (send_buf ''CAP REQ :twitch.tv/commands'')];
          pass = send_buf (snprintf TWIRC_BUFFER_SIZE (''PASS '' @ l_pass l));
          nick = send_buf (snprintf TWIRC_BUFFER_SIZE (''NICK '' @ l_nick l))
      in caps @ [Sent pass] @ (if stcpnb_send e (t0 @ caps) pass = - 1 then [] else [Sent nick]))"

section \<open>Sample transports, states and events\<close>

text \<open>
  A transport that accepts every buffer, one that refuses every buffer, a state as
  \<open>twirc_connect\<close> leaves it when the connection attempt is under way, and the event the
  decoder produces for the line \<open>PRIVMSG #chan\<close>.
\<close>

definition demo_env :: env where
  "demo_env = \<lparr>stcpnb_send = (\<lambda>t b. int (length b)), TWIRC_PONG_SIZE = 64\<rparr>"

definition refusing_env :: env where
  "refusing_env = \<lparr>stcpnb_send = (\<lambda>t b. - 1), TWIRC_PONG_SIZE = 64\<rparr>"

definition connecting_state :: twirc_state where
  "connecting_state =
     twirc_init\<lparr>status := TWIRC_STATUS_CONNECTING,
                login := \<lparr>l_host = ''h'', l_port = ''6667'', l_nick = ''bot'', l_pass = ''oauth:x''\<rparr>\<rparr>"

definition lone_privmsg :: twirc_event where
  "lone_privmsg =
     \<lparr>tags = None, num_tags = 0, prefix = None, nick = None, channel = None,
      command = ''PRIVMSG'', params = Some [''#chan''], num_params = 1, trailing = - 1\<rparr>"

section \<open>Basic facts\<close>

lemma strstr_bound: "strstr h sep = Some p \<Longrightarrow> p + length sep \<le> length h"
proof (induction h arbitrary: p)
  case Nil
  then show ?case by (simp split: if_splits)
next
  case (Cons c cs)
  show ?case
  proof (cases "take (length sep) (c # cs) = sep")
    case True
    have "length (take (length sep) (c # cs)) \<le> length (c # cs)"
      by simp
    with True have "length sep \<le> length (c # cs)"
      by simp
    with True Cons.prems show ?thesis by simp
  next
    case False
    with Cons.prems obtain q where "strstr cs sep = Some q" "p = Suc q" by auto
    with Cons.IH show ?thesis by fastforce
  qed
qed

lemma next_chunk_advances:
  "libtwirc_next_chunk dest dlen src slen off = Inr (c, Some off') \<Longrightarrow> off < off' \<and> off' \<le> slen"
  by (auto simp: libtwirc_next_chunk_def Let_def split: if_splits)

lemma dispatch_evt_buffer:
  "libtwirc_dispatch_evt e s ev = Inr (s', ev', r) \<Longrightarrow> buffer s' = buffer s"
  by (auto simp: libtwirc_dispatch_evt_def libtwirc_on_welcome_def libtwirc_on_ping_def
      libtwirc_on_clearchat_def libtwirc_on_whisper_def twirc_cmd_pong_def twirc_send_def
      callback_def Let_def split: if_splits sum.splits option.splits prod.splits)

lemma process_msg_buffer:
  "libtwirc_process_msg e s msg = Inr s' \<Longrightarrow> buffer s' = buffer s"
  by (auto simp: libtwirc_process_msg_def Let_def dest!: dispatch_evt_buffer
      split: sum.splits prod.splits)

section \<open>Properties of the reassembler\<close>

lemma filter_takeWhile_step:
  "filter P xs = takeWhile P xs @ filter P (drop (Suc (length (takeWhile P xs))) xs)"
  by (induction xs) auto

lemma msgs_in_append: "msgs_in (a @ b) = msgs_in a @ msgs_in b"
  by (induction a rule: msgs_in.induct) auto

lemma takeWhile_take_len: "length (takeWhile P (take n xs)) \<le> n"
  by (rule le_trans [OF length_takeWhile_le]) simp

lemma take_drop_shift:
  "take (len - (off + k)) (drop (off + k) buf) = drop k (take (len - off) (drop off buf))"
  by (simp add: drop_take add.commute)

lemma next_chunk_in_loop:
  "libtwirc_next_chunk chunk (Suc len) buf len off =
     (if len < off \<or> length buf < len then Inl OutOfBounds
      else if off = len then Inr (chunk, None)
      else Inr (takeWhile (\<lambda>c. c \<noteq> NUL) (take (len - off) (drop off buf)),
                Some (min len (off + length (takeWhile (\<lambda>c. c \<noteq> NUL) (take (len - off) (drop off buf))) + 1))))"
proof -
  have "length (takeWhile (\<lambda>c. c \<noteq> NUL) (take (len - off) (drop off buf))) \<noteq> len + 1"
    using takeWhile_take_len [of "\<lambda>c. c \<noteq> NUL" "len - off" "drop off buf"] by arith
  then show ?thesis
    by (auto simp: libtwirc_next_chunk_def Let_def min_def)
qed

lemma chunk_loop_appends:
  "chunk_loop s chunk buf len off = Inr s' \<Longrightarrow>
   s' = s\<lparr>buffer := buffer s @ strip_nul (take (len - off) (drop off buf))\<rparr>"
proof (induction s chunk buf len off rule: chunk_loop.induct)
  case (1 s chunk buf len off)
  let ?xs = "take (len - off) (drop off buf)"
  let ?c = "takeWhile (\<lambda>c. c \<noteq> NUL) ?xs"
  let ?off' = "min len (off + length ?c + 1)"
  show ?case
  proof (cases "len < off \<or> length buf < len")
    case True
    with "1.prems" show ?thesis by (simp add: next_chunk_in_loop)
  next
    case ok: False
    show ?thesis
    proof (cases "off = len")
      case True
      with ok "1.prems" show ?thesis by (simp add: next_chunk_in_loop strip_nul_def)
    next
      case False
      with ok have nc: "libtwirc_next_chunk chunk (len + 1) buf len off = Inr (?c, Some ?off')"
        by (simp add: next_chunk_in_loop)
      from False ok have pos: "0 < ?off'" by simp
      from "1.prems" nc pos have nov: "\<not> 2 * TWIRC_MESSAGE_SIZE \<le> length (buffer s) + length ?c"
        and rec: "chunk_loop (s\<lparr>buffer := buffer s @ ?c\<rparr>) ?c buf len ?off' = Inr s'"
        by (auto split: if_splits)
      from "1.IH" [OF nc refl refl pos nov rec]
      have s': "s' = s\<lparr>buffer := (buffer s @ ?c) @ strip_nul (take (len - ?off') (drop ?off' buf))\<rparr>"
        by simp
      have "take (len - ?off') (drop ?off' buf) = drop (Suc (length ?c)) ?xs"
      proof (cases "len \<le> off + length ?c + 1")
        case True
        have "length ?xs \<le> len - off" by simp
        with True have "length ?xs \<le> Suc (length ?c)" by arith
        then have "drop (Suc (length ?c)) ?xs = []" by (rule drop_all)
        moreover from True have "?off' = len" by simp
        ultimately show ?thesis by simp
      next
        case False
        then have "?off' = off + Suc (length ?c)" by simp
        then show ?thesis using take_drop_shift [of len off "Suc (length ?c)" buf] by simp
      qed
      then have "strip_nul ?xs = ?c @ strip_nul (take (len - ?off') (drop ?off' buf))"
        unfolding strip_nul_def using filter_takeWhile_step [of "\<lambda>c. c \<noteq> NUL" ?xs] by simp
      with s' show ?thesis by simp
    qed
  qed
qed

lemma strstr_append:
  "strstr b sep = Some p \<Longrightarrow> strstr (b @ c) sep = Some p"
proof (induction b arbitrary: p)
  case Nil
  then show ?case by (cases c) (auto split: if_splits)
next
  case (Cons x xs)
  from strstr_bound [OF Cons.prems] have le: "length sep \<le> length (x # xs)" by simp
  then have tk: "take (length sep) ((x # xs) @ c) = take (length sep) (x # xs)"
    by (simp del: append_Cons)
  show ?case
  proof (cases "take (length sep) (x # xs) = sep")
    case True
    with Cons.prems tk show ?thesis by simp
  next
    case False
    with Cons.prems obtain q where q: "strstr xs sep = Some q" "p = Suc q" by auto
    from Cons.IH [OF q(1)] False tk q(2) show ?thesis by simp
  qed
qed

lemma crlf_lines_from_found:
  "strstr b CRLF = Some p \<Longrightarrow>
   crlf_lines_from cur (b @ c) = (cur @ take p b) # crlf_lines_from [] (drop (p + 2) b @ c)"
proof (induction b arbitrary: cur p)
  case Nil
  then show ?case by simp
next
  case (Cons x xs)
  show ?case
  proof (cases "take 2 (x # xs) = CRLF")
    case True
    then obtain ys where xs: "xs = LF # ys" and x: "x = CR"
      by (cases xs) auto
    from True Cons.prems have "p = 0" by simp
    with xs x show ?thesis by simp
  next
    case False
    with Cons.prems obtain q where q: "strstr xs CRLF = Some q" and p: "p = Suc q"
      by auto
    from strstr_bound [OF q] obtain d ys where xs: "xs = d # ys"
      by (cases xs) auto
    from False xs have ne: "\<not> (x = CR \<and> d = LF)" by auto
    from Cons.IH [OF q, of "cur @ [x]"] ne xs p show ?thesis by simp
  qed
qed

lemma crlf_lines_found:
  assumes "strstr b CRLF = Some p"
  shows "crlf_lines (b @ c) = take p b # crlf_lines (drop (p + 2) b @ c)"
  using crlf_lines_from_found [OF assms, of "[]" c] by (simp add: crlf_lines_def)

lemma messages_of_found:
  assumes "strstr b CRLF = Some p"
  shows "messages_of (b @ c) =
           (if p = 0 then [] else [take p b]) @ messages_of (drop (p + 2) b @ c)"
proof -
  from strstr_bound [OF assms] have "p + 2 \<le> length b" by simp
  then have "take p b = [] \<longleftrightarrow> p = 0" by auto
  then show ?thesis
    by (simp add: messages_of_def crlf_lines_found [OF assms])
qed

lemma dispatch_evt_msgs:
  "libtwirc_dispatch_evt e s ev = Inr (s', ev', r) \<Longrightarrow> msgs_in (trace s') = msgs_in (trace s)"
  by (auto simp: libtwirc_dispatch_evt_def libtwirc_on_welcome_def libtwirc_on_ping_def
      libtwirc_on_clearchat_def libtwirc_on_whisper_def twirc_cmd_pong_def twirc_send_def
      callback_def Let_def msgs_in_append split: if_splits sum.splits option.splits prod.splits)

lemma process_msg_msgs:
  "libtwirc_process_msg e s msg = Inr s' \<Longrightarrow> msgs_in (trace s') = msgs_in (trace s) @ [msg]"
  by (auto simp: libtwirc_process_msg_def Let_def msgs_in_append dest!: dispatch_evt_msgs
      split: sum.splits prod.splits)

lemma extract_loop_order:
  "extract_loop e s msg = Inr s' \<Longrightarrow>
   \<exists>ys. msgs_in (trace s') = msgs_in (trace s) @ ys \<and>
        (\<forall>c. messages_of (buffer s @ c) = ys @ messages_of (buffer s' @ c))"
proof (induction e s msg arbitrary: s' rule: extract_loop.induct)
  case (1 e s msg)
  show ?case
  proof (cases "strstr (buffer s) CRLF")
    case None
    with "1.prems" have "s' = s"
      by (simp add: libtwirc_shift_token_def TWIRC_MESSAGE_SIZE_def)
    then show ?thesis by simp
  next
    case (Some p)
    from strstr_bound [OF Some] have le: "p + 2 \<le> length (buffer s)" by simp
    let ?src = "drop (p + 2) (buffer s)"
    let ?tok = "take p (buffer s)"
    have st: "libtwirc_shift_token msg (buffer s) CRLF = (p, ?tok, ?src)"
      using le by (simp add: libtwirc_shift_token_def Some)
    show ?thesis
    proof (cases "p = 0")
      case True
      with "1.prems" st have "s' = s\<lparr>buffer := ?src\<rparr>"
        by (simp add: TWIRC_MESSAGE_SIZE_def)
      with True messages_of_found [OF Some] show ?thesis by simp
    next
      case False
      with "1.prems" st have small: "\<not> TWIRC_MESSAGE_SIZE \<le> p"
        by (auto split: if_splits)
      with "1.prems" st False obtain s1 where
        pm: "libtwirc_process_msg e (s\<lparr>buffer := ?src\<rparr>) ?tok = Inr s1"
        and rec: "extract_loop e s1 ?tok = Inr s'"
        by (auto split: sum.splits)
      from False have pos: "0 < p" by simp
      from "1.IH" [OF st [symmetric] refl small pos pm rec]
      obtain ys where ys: "msgs_in (trace s') = msgs_in (trace s1) @ ys"
        "\<forall>c. messages_of (buffer s1 @ c) = ys @ messages_of (buffer s' @ c)"
        by blast
      from process_msg_buffer [OF pm] have b1: "buffer s1 = ?src" by simp
      from process_msg_msgs [OF pm] have m1: "msgs_in (trace s1) = msgs_in (trace s) @ [?tok]" by simp
      have "msgs_in (trace s') = msgs_in (trace s) @ (?tok # ys)"
        using ys(1) m1 by simp
      moreover have "\<forall>c. messages_of (buffer s @ c) = (?tok # ys) @ messages_of (buffer s' @ c)"
        using messages_of_found [OF Some] False ys(2) b1 by simp
      ultimately show ?thesis by blast
    qed
  qed
qed


lemma process_data_order:
  assumes "libtwirc_process_data e s span (length span) = Inr s'"
  shows "\<exists>ys. msgs_in (trace s') = msgs_in (trace s) @ ys \<and>
        (\<forall>c. messages_of (buffer s @ strip_nul span @ c) = ys @ messages_of (buffer s' @ c))"
proof -
  from assms obtain s1 where cl: "chunk_loop s [] span (length span) 0 = Inr s1"
    and el: "extract_loop e s1 [] = Inr s'"
    by (auto simp: libtwirc_process_data_def split: sum.splits)
  from chunk_loop_appends [OF cl] have s1: "s1 = s\<lparr>buffer := buffer s @ strip_nul span\<rparr>"
    by simp
  from extract_loop_order [OF el] s1 show ?thesis by simp
qed

lemma feed_all_order:
  "feed_all e s spans = Inr s' \<Longrightarrow>
   \<exists>ys. msgs_in (trace s') = msgs_in (trace s) @ ys \<and>
        (\<forall>c. messages_of (buffer s @ strip_nul (concat spans) @ c) = ys @ messages_of (buffer s' @ c))"
proof (induction spans arbitrary: s)
  case Nil
  then show ?case by (simp add: strip_nul_def)
next
  case (Cons span spans)
  from Cons.prems obtain s1 where
    pd: "libtwirc_process_data e s span (length span) = Inr s1"
    and rest: "feed_all e s1 spans = Inr s'"
    by (auto split: sum.splits)
  from process_data_order [OF pd] obtain ys where
    ys: "msgs_in (trace s1) = msgs_in (trace s) @ ys"
        "\<forall>c. messages_of (buffer s @ strip_nul span @ c) = ys @ messages_of (buffer s1 @ c)"
    by blast
  from Cons.IH [OF rest] obtain zs where
    zs: "msgs_in (trace s') = msgs_in (trace s1) @ zs"
        "\<forall>c. messages_of (buffer s1 @ strip_nul (concat spans) @ c) = zs @ messages_of (buffer s' @ c)"
    by blast
  have "msgs_in (trace s') = msgs_in (trace s) @ (ys @ zs)"
    using ys(1) zs(1) by simp
  moreover have "\<forall>c. messages_of (buffer s @ strip_nul (concat (span # spans)) @ c)
      = (ys @ zs) @ messages_of (buffer s' @ c)"
    using ys(2) zs(2) by (simp add: strip_nul_def)
  ultimately show ?case by blast
qed

lemmas pipeline_defs =
  libtwirc_process_data_def libtwirc_next_chunk_def libtwirc_shift_token_def
  TWIRC_MESSAGE_SIZE_def libtwirc_process_msg_def decode_msg_def libtwirc_parse_tags_def
  libtwirc_parse_prefix_def libtwirc_parse_command_def libtwirc_parse_params_def
  libtwirc_dispatch_evt_def libtwirc_on_ping_def param_at_def twirc_cmd_pong_def
  twirc_send_def callback_def Let_def size_t_sub_def

lemmas const_defs =
  TWIRC_STATUS_CONNECTING_def TWIRC_STATUS_CONNECTED_def TWIRC_STATUS_AUTHENTICATING_def
  TWIRC_STATUS_AUTHENTICATED_def TWIRC_STATUS_DISCONNECTED_def EPOLLIN_def EPOLLOUT_def
  EPOLLERR_def EPOLLHUP_def EPOLLRDHUP_def TWIRC_BUFFER_SIZE_def TWIRC_MESSAGE_SIZE_def

section \<open>Properties of the state machine\<close>

lemma twirc_send_eq:
  "twirc_send e s msg = (s\<lparr>trace := trace s @ [Sent (send_buf msg)]\<rparr>, stcpnb_send e (trace s) (send_buf msg))"
  by (simp add: twirc_send_def send_buf_def Let_def)

lemma on_connect_fresh:
  "libtwirc_on_connect e (s\<lparr>status := TWIRC_STATUS_CONNECTED\<rparr>) =
     (s\<lparr>status := TWIRC_STATUS_CONNECTED OR TWIRC_STATUS_AUTHENTICATING,
        trace := trace s @ handshake e (login s) (trace s)\<rparr>, 0)"
  by (simp add: libtwirc_on_connect_def twirc_capreq_def twirc_auth_def twirc_cmd_pass_def
      twirc_cmd_nick_def twirc_cmd_req_tags_def twirc_cmd_req_membership_def
      twirc_cmd_req_commands_def twirc_send_eq handshake_def Let_def
      TWIRC_STATUS_CONNECTED_def TWIRC_STATUS_AUTHENTICATING_def TWIRC_STATUS_AUTHENTICATED_def)

lemma connecting_kept: "((w :: 8 word) OR TWIRC_STATUS_AUTHENTICATED) AND TWIRC_STATUS_CONNECTING = w AND TWIRC_STATUS_CONNECTING"
  by (simp add: TWIRC_STATUS_AUTHENTICATED_def TWIRC_STATUS_CONNECTING_def bit.conj_disj_distrib2)

lemma dispatch_evt_frame:
  "libtwirc_dispatch_evt e s ev = Inr (s', ev', r) \<Longrightarrow>
   login s' = login s \<and> status s' AND TWIRC_STATUS_CONNECTING = status s AND TWIRC_STATUS_CONNECTING"
  by (auto simp: libtwirc_dispatch_evt_def libtwirc_on_welcome_def libtwirc_on_ping_def
      libtwirc_on_clearchat_def libtwirc_on_whisper_def twirc_cmd_pong_def twirc_send_def
      callback_def Let_def connecting_kept split: if_splits sum.splits option.splits prod.splits)

lemma process_msg_frame:
  "libtwirc_process_msg e s msg = Inr s' \<Longrightarrow>
   login s' = login s \<and> status s' AND TWIRC_STATUS_CONNECTING = status s AND TWIRC_STATUS_CONNECTING"
  by (auto simp: libtwirc_process_msg_def Let_def dest!: dispatch_evt_frame
      split: sum.splits prod.splits)

lemma extract_loop_frame:
  "extract_loop e s msg = Inr s' \<Longrightarrow>
   login s' = login s \<and> status s' AND TWIRC_STATUS_CONNECTING = status s AND TWIRC_STATUS_CONNECTING"
proof (induction e s msg arbitrary: s' rule: extract_loop.induct)
  case (1 e s msg)
  obtain tok_len msg' src' where st: "libtwirc_shift_token msg (buffer s) CRLF = (tok_len, msg', src')"
    by (cases "libtwirc_shift_token msg (buffer s) CRLF") auto
  show ?case
  proof (cases "0 < tok_len")
    case False
    with "1.prems" st show ?thesis by (auto split: if_splits)
  next
    case True
    with "1.prems" st have small: "\<not> TWIRC_MESSAGE_SIZE \<le> tok_len"
      by (auto split: if_splits)
    with "1.prems" st True obtain s1 where
      pm: "libtwirc_process_msg e (s\<lparr>buffer := src'\<rparr>) msg' = Inr s1"
      and rec: "extract_loop e s1 msg' = Inr s'"
      by (auto split: sum.splits)
    from "1.IH" [OF st [symmetric] refl small True pm rec] process_msg_frame [OF pm]
    show ?thesis by simp
  qed
qed

lemma process_data_frame:
  assumes "libtwirc_process_data e s buf len = Inr s'"
  shows "login s' = login s \<and> status s' AND TWIRC_STATUS_CONNECTING = status s AND TWIRC_STATUS_CONNECTING"
proof -
  from assms obtain s1 where cl: "chunk_loop s [] buf len 0 = Inr s1"
    and el: "extract_loop e s1 [] = Inr s'"
    by (auto simp: libtwirc_process_data_def split: sum.splits)
  from chunk_loop_appends [OF cl] extract_loop_frame [OF el] show ?thesis by simp
qed

lemma recv_loop_frame:
  "recv_loop e s wire = Inr (s', wire') \<Longrightarrow>
   login s' = login s \<and> status s' AND TWIRC_STATUS_CONNECTING = status s AND TWIRC_STATUS_CONNECTING"
proof (induction wire arbitrary: s)
  case Nil
  then show ?case by (auto split: sum.splits)
next
  case (Cons r wire)
  from Cons.prems obtain n buf where tr: "twirc_recv r TWIRC_BUFFER_SIZE = Inr (n, buf)"
    by (auto split: sum.splits)
  show ?case
  proof (cases "0 < n")
    case False
    with Cons.prems tr show ?thesis by simp
  next
    case True
    with Cons.prems tr obtain s1 where
      pd: "libtwirc_process_data e s buf (nat n) = Inr s1" and rec: "recv_loop e s1 wire = Inr (s', wire')"
      by (auto split: sum.splits)
    from Cons.IH [OF rec] process_data_frame [OF pd] show ?thesis by simp
  qed
qed

lemma read_branch_frame:
  "read_branch e events s wire = Inr (s', wire') \<Longrightarrow>
   login s' = login s \<and> status s' AND TWIRC_STATUS_CONNECTING = status s AND TWIRC_STATUS_CONNECTING"
  by (auto simp: read_branch_def dest: recv_loop_frame split: if_splits)

section \<open>Results\<close>

text \<open>
  C1. Tag escape decoding. The source's loop stops one character early, so the last
  character of a value is lost unless it is the second half of an escape: the value
  \<open>a\sb\:c\\d\<close> decodes to \<open>a b;c\\<close>, without the final \<open>d\<close>.
\<close>

theorem C1_unescape_drops_last_char:
  "libtwirc_unescape_tag (''a'' @ [BSL] @ ''sb'' @ [BSL] @ '':c'' @ [BSL, BSL] @ ''d'')
     = ''a b;c'' @ [BSL]"
  by (simp add: libtwirc_unescape_tag_def)

lemma dispatch_welcome:
  "libtwirc_dispatch_evt e s (ev\<lparr>command := ''001''\<rparr>) =
     Inr (s\<lparr>status := status s OR TWIRC_STATUS_AUTHENTICATED,
            trace := trace s @ [Called Welcome (Some (ev\<lparr>command := ''001''\<rparr>))]\<rparr>,
          ev\<lparr>command := ''001''\<rparr>, 0)"
  by (simp add: libtwirc_dispatch_evt_def libtwirc_on_welcome_def callback_def)

text \<open>
  C2. Marking the connection authenticated. The dispatcher has a branch for \<open>001\<close>,
  which adds the flag and keeps the others, and none for \<open>GLOBALUSERSTATE\<close>: for every
  event with that command it returns -1 and leaves state and event as they were. The
  handler \<open>libtwirc_on_globaluserstate\<close> is never called.
\<close>

theorem C2_globaluserstate_ignored:
  "libtwirc_dispatch_evt e s (ev\<lparr>command := ''GLOBALUSERSTATE''\<rparr>) =
     Inr (s, ev\<lparr>command := ''GLOBALUSERSTATE''\<rparr>, - 1)"
  by (simp add: libtwirc_dispatch_evt_def)

text \<open>
  C3. The handshake. As stated the claim fails where the transport refuses the password
  send: \<open>twirc_auth\<close> returns at once and no nickname send is issued, while the status
  still becomes Connected|Authenticating.
\<close>

theorem C3_no_nick_after_refused_pass:
  "libtwirc_handle_event refusing_env EPOLLOUT connecting_state [] =
     Inr (connecting_state
            \<lparr>status := TWIRC_STATUS_CONNECTED OR TWIRC_STATUS_AUTHENTICATING,
             trace := [Sent (''CAP REQ :twitch.tv/tags'' @ [CR, LF, NUL]),
                       Sent (''CAP REQ :twitch.tv/membership'' @ [CR, LF, NUL]),
                       Sent (''CAP REQ :twitch.tv/commands'' @ [CR, LF, NUL]),
                       Sent (''PASS oauth:x'' @ [CR, LF, NUL]),
                       Called Connect None]\<rparr>, [], 0)"
  by (simp add: libtwirc_handle_event_def read_branch_def callback_def libtwirc_on_connect_def
      twirc_capreq_def twirc_auth_def twirc_cmd_pass_def twirc_cmd_nick_def twirc_cmd_req_tags_def
      twirc_cmd_req_membership_def twirc_cmd_req_commands_def twirc_send_def
      snprintf_def refusing_env_def connecting_state_def twirc_init_def const_defs Let_def)

text \<open>
  C3, amended. On a writable notification while the state has the Connecting flag, once
  the notification's own reads are done (state \<open>s1\<close>), the handler issues the three
  capability requests, then the password send, then the nickname send unless the
  password send returned -1; it then calls the connect handler. Nothing is received or
  processed between or after these sends: the backlog is the one the reads left. The
  status the notification leaves is Connected|Authenticating, or Disconnected when the
  same notification carries a hangup or error flag.
\<close>

theorem C3_handshake:
  assumes out: "events AND EPOLLOUT \<noteq> 0"
    and conn: "status s AND TWIRC_STATUS_CONNECTING \<noteq> 0"
    and rd: "read_branch e events s wire = Inr (s1, wire')"
  shows "\<exists>s' r. libtwirc_handle_event e events s wire = Inr (s', wire', r) \<and>
      status s' =
        (if events AND EPOLLRDHUP = 0 \<and> events AND EPOLLHUP = 0 \<and> events AND EPOLLERR = 0
         then TWIRC_STATUS_CONNECTED OR TWIRC_STATUS_AUTHENTICATING
         else TWIRC_STATUS_DISCONNECTED) \<and>
      buffer s' = buffer s1 \<and>
      trace s' = trace s1 @ handshake e (login s) (trace s1) @ [Called Connect None]"
proof -
  from read_branch_frame [OF rd] conn
  have l: "login s1 = login s" and c: "status s1 AND TWIRC_STATUS_CONNECTING \<noteq> 0"
    by simp_all
  show ?thesis
    using out c l rd
    by (simp add: libtwirc_handle_event_def on_connect_fresh callback_def Let_def)
qed

theorem C3_handshake_witness:
  "EPOLLOUT AND EPOLLOUT \<noteq> 0 \<and>
   status connecting_state AND TWIRC_STATUS_CONNECTING \<noteq> 0 \<and>
   read_branch demo_env EPOLLOUT connecting_state [] = Inr (connecting_state, []) \<and>
   (\<exists>s' r. libtwirc_handle_event demo_env EPOLLOUT connecting_state [] = Inr (s', [], r) \<and>
      status s' = TWIRC_STATUS_CONNECTED OR TWIRC_STATUS_AUTHENTICATING \<and>
      sends (trace s') =
        [''CAP REQ :twitch.tv/tags'' @ [CR, LF, NUL],
         ''CAP REQ :twitch.tv/membership'' @ [CR, LF, NUL],
         ''CAP REQ :twitch.tv/commands'' @ [CR, LF, NUL],
         ''PASS oauth:x'' @ [CR, LF, NUL],
         ''NICK bot'' @ [CR, LF, NUL]] \<and>
      calls (trace s') = [Connect])"
proof -
  have h1: "EPOLLOUT AND EPOLLOUT \<noteq> 0"
    by (simp add: EPOLLOUT_def)
  have h2: "status connecting_state AND TWIRC_STATUS_CONNECTING \<noteq> 0"
    by (simp add: connecting_state_def twirc_init_def TWIRC_STATUS_CONNECTING_def)
  have h3: "read_branch demo_env EPOLLOUT connecting_state [] = Inr (connecting_state, [])"
    by (simp add: read_branch_def EPOLLOUT_def EPOLLIN_def)
  from C3_handshake [OF h1 h2 h3] obtain s' r where
    r: "libtwirc_handle_event demo_env EPOLLOUT connecting_state [] = Inr (s', [], r)"
    and st: "status s' =
        (if EPOLLOUT AND EPOLLRDHUP = 0 \<and> EPOLLOUT AND EPOLLHUP = 0 \<and> EPOLLOUT AND EPOLLERR = 0
         then TWIRC_STATUS_CONNECTED OR TWIRC_STATUS_AUTHENTICATING
         else TWIRC_STATUS_DISCONNECTED)"
    and tr: "trace s' = trace connecting_state @
        handshake demo_env (login connecting_state) (trace connecting_state) @ [Called Connect None]"
    by blast
  from st have st': "status s' = TWIRC_STATUS_CONNECTED OR TWIRC_STATUS_AUTHENTICATING"
    by (simp add: const_defs)
  from tr have sd: "sends (trace s') =
        [''CAP REQ :twitch.tv/tags'' @ [CR, LF, NUL],
         ''CAP REQ :twitch.tv/membership'' @ [CR, LF, NUL],
         ''CAP REQ :twitch.tv/commands'' @ [CR, LF, NUL],
         ''PASS oauth:x'' @ [CR, LF, NUL],
         ''NICK bot'' @ [CR, LF, NUL]]"
    by (simp add: handshake_def send_buf_def snprintf_def demo_env_def connecting_state_def
        twirc_init_def const_defs Let_def)
  from tr have cl: "calls (trace s') = [Connect]"
    by (simp add: handshake_def send_buf_def snprintf_def demo_env_def connecting_state_def
        twirc_init_def const_defs Let_def)
  from h1 h2 h3 r st' sd cl show ?thesis by blast
qed

text \<open>
  C4. Split-read reassembly. From an empty backlog, the span \<open>PI\<close> yields nothing and
  stays buffered; the span \<open>NG :tmi.example\<close> CR LF then yields exactly one message,
  \<open>PING :tmi.example\<close>, and leaves the backlog empty. This holds for every transport
  and from every state whose backlog is empty.
\<close>

theorem C4_split_read:
  "\<exists>s1 s2.
     libtwirc_process_data e (s\<lparr>buffer := []\<rparr>) ''PI'' (length ''PI'') = Inr s1 \<and>
     msgs_in (trace s1) = msgs_in (trace s) \<and> buffer s1 = ''PI'' \<and>
     libtwirc_process_data e s1 (''NG :tmi.example'' @ CRLF) (length (''NG :tmi.example'' @ CRLF))
       = Inr s2 \<and>
     msgs_in (trace s2) = msgs_in (trace s) @ [''PING :tmi.example''] \<and> buffer s2 = []"
  by (simp add: pipeline_defs msgs_in_append)

text \<open>
  C5. Order of the yielded messages. For every way of cutting a byte stream into spans,
  if the calls return, the messages handed on (in the order of the trace) followed by
  the complete non-empty messages still in the backlog are exactly the non-empty
  messages of the stream, in stream order: nothing is reordered. In particular the span
  \<open>FOO\<close> CR LF \<open>BAR\<close> CR LF, fed in one call to an empty backlog, yields \<open>FOO\<close> then
  \<open>BAR\<close> and nothing else.
\<close>

theorem C5_order:
  "(feed_all e (s\<lparr>buffer := []\<rparr>) spans = Inr s' \<longrightarrow>
      (\<exists>ys. msgs_in (trace s') = msgs_in (trace s) @ ys \<and>
            messages_of (strip_nul (concat spans)) = ys @ messages_of (buffer s'))) \<and>
   (\<exists>s1. feed_all e (s\<lparr>buffer := []\<rparr>) [''FOO'' @ CRLF @ ''BAR'' @ CRLF] = Inr s1 \<and>
         msgs_in (trace s1) = msgs_in (trace s) @ [''FOO'', ''BAR''] \<and> buffer s1 = [])"
proof (intro conjI impI)
  assume "feed_all e (s\<lparr>buffer := []\<rparr>) spans = Inr s'"
  from feed_all_order [OF this]
  obtain ys where "msgs_in (trace s') = msgs_in (trace s) @ ys"
    and "\<forall>c. messages_of (strip_nul (concat spans) @ c) = ys @ messages_of (buffer s' @ c)"
    by auto
  from this(1) this(2) [rule_format, of "[]"]
  show "\<exists>ys. msgs_in (trace s') = msgs_in (trace s) @ ys \<and>
            messages_of (strip_nul (concat spans)) = ys @ messages_of (buffer s')"
    by auto
next
  show "\<exists>s1. feed_all e (s\<lparr>buffer := []\<rparr>) [''FOO'' @ CRLF @ ''BAR'' @ CRLF] = Inr s1 \<and>
         msgs_in (trace s1) = msgs_in (trace s) @ [''FOO'', ''BAR''] \<and> buffer s1 = []"
    by (simp add: pipeline_defs msgs_in_append)
qed

theorem C5_order_witness:
  "feed_all demo_env (twirc_init\<lparr>buffer := []\<rparr>) [''FOO'' @ [CR], [LF] @ ''BA'', ''R'' @ CRLF @ ''BAZ'']
     = Inr (twirc_init\<lparr>buffer := ''BAZ'', trace := [Msg_in ''FOO'', Msg_in ''BAR'']\<rparr>) \<and>
   (\<exists>ys. msgs_in [Msg_in ''FOO'', Msg_in ''BAR''] = msgs_in (trace twirc_init) @ ys \<and>
         messages_of (strip_nul (concat [''FOO'' @ [CR], [LF] @ ''BA'', ''R'' @ CRLF @ ''BAZ'']))
           = ys @ messages_of ''BAZ'')"
proof -
  have h: "feed_all demo_env (twirc_init\<lparr>buffer := []\<rparr>)
             [''FOO'' @ [CR], [LF] @ ''BA'', ''R'' @ CRLF @ ''BAZ'']
           = Inr (twirc_init\<lparr>buffer := ''BAZ'', trace := [Msg_in ''FOO'', Msg_in ''BAR'']\<rparr>)"
    by (simp add: pipeline_defs twirc_init_def)
  from C5_order [THEN conjunct1, rule_format, OF h] h show ?thesis
    by simp
qed

text \<open>
  C6. One extraction pass. The extraction loop stops as soon as
  \<open>libtwirc_shift_token\<close> returns 0, which it also does for an empty line. A read that
  carries \<open>FOO\<close>, an empty line and \<open>BAR\<close>, each ended by CR LF, yields only \<open>FOO\<close>:
  the complete message \<open>BAR\<close> stays in the backlog.
\<close>

theorem C6_empty_line_stops_pass:
  "\<exists>s1. libtwirc_process_data e (s\<lparr>buffer := []\<rparr>) (''FOO'' @ CRLF @ CRLF @ ''BAR'' @ CRLF)
            (length (''FOO'' @ CRLF @ CRLF @ ''BAR'' @ CRLF)) = Inr s1 \<and>
        msgs_in (trace s1) = msgs_in (trace s) @ [''FOO''] \<and>
        buffer s1 = ''BAR'' @ CRLF"
  by (simp add: pipeline_defs msgs_in_append)

lemma decode_globaluserstate_line:
  "map_sum id command (decode_msg '':tmi.twitch.tv GLOBALUSERSTATE'') = Inr ''GLOBALUSERSTA''"
  by (simp add: decode_msg_def libtwirc_parse_tags_def libtwirc_parse_prefix_def
      libtwirc_parse_command_def libtwirc_parse_params_def size_t_sub_def)

text \<open>
  C7. Command token. With no space after the command, the source copies the line
  without its last two characters: the line \<open>PING\<close> gives the command \<open>PI\<close>, not
  the entire remainder \<open>PING\<close>.
\<close>

theorem C7_command_loses_two_chars:
  "libtwirc_parse_command ''PING'' = (''PI'', None)"
  by (simp add: libtwirc_parse_command_def size_t_sub_def)

lemma decode_privmsg_example:
  "decode_msg ''PRIVMSG #chan :hello world'' =
     Inr \<lparr>tags = None, num_tags = 0, prefix = None, nick = None, channel = None,
          command = ''PRIVMSG'', params = Some [''#chan'', ''hello world''], num_params = 2,
          trailing = 1\<rparr>"
  by (simp add: decode_msg_def libtwirc_parse_tags_def libtwirc_parse_prefix_def
      libtwirc_parse_command_def libtwirc_parse_params_def)

lemma empty_trailing_index:
  "libtwirc_parse_params (Some ''#chan :'') = (Some [''#chan''], 1, 0)"
  by (simp add: libtwirc_parse_params_def)

text \<open>
  C8. Parameters. The example of the specification decodes as it says. But a colon
  inside a middle token starts the trailing parameter and the characters of that token
  before the colon are lost: the parameter section \<open>a:b c\<close> decodes to the single
  parameter \<open>b c\<close> with trailing index 0, where the space-separated tokens are
  \<open>a:b\<close> and \<open>c\<close> and no token begins with a colon.
\<close>

theorem C8_colon_inside_token:
  "libtwirc_parse_params (Some ''a:b c'') = (Some [''b c''], 1, 0)"
  by (simp add: libtwirc_parse_params_def)

lemma size_t_sub_one: "0 < len \<Longrightarrow> len \<le> 2 ^ 31 \<Longrightarrow> size_t_sub len 1 = len - 1"
proof -
  assume a: "0 < len" "len \<le> 2 ^ 31"
  then obtain k where k: "len = Suc k" by (cases len) auto
  with a have "k < 2 ^ 64" by simp
  then have "(Suc k + 2 ^ 64 - 1) mod 2 ^ 64 = k" by simp
  with k show ?thesis by (simp add: size_t_sub_def)
qed

lemma ssize_to_int_small: "0 \<le> x \<Longrightarrow> x < 2 ^ 31 \<Longrightarrow> ssize_to_int x = x"
  by (simp add: ssize_to_int_def)

lemma twirc_recv_success:
  assumes "0 < len" and "len \<le> 2 ^ 31"
  shows "\<exists>buf. twirc_recv (Rx_bytes bs) len = Inr (int (length (take (len - 1) bs)), buf)"
proof -
  let ?k = "length (take (len - 1) bs)"
  have le: "?k \<le> len - 1" by simp
  with assms have lt: "?k < len" by arith
  with assms have "?k < 2 ^ 31" by arith
  then have "int ?k < 2 ^ 31" by (metis of_nat_less_iff of_nat_numeral of_nat_power)
  then have conv: "ssize_to_int (int ?k) = int ?k"
    by (intro ssize_to_int_small) simp_all
  from lt have fits: "\<not> len < ?k" and inb: "\<not> int len \<le> int ?k" by arith+
  from fits inb conv size_t_sub_one [OF assms] show ?thesis
    by (simp add: twirc_recv_def stcpnb_receive_def Let_def del: length_take)
qed


text \<open>
  C10. The guard on \<open>PRIVMSG\<close>. For an event with command \<open>PRIVMSG\<close> and fewer than two
  parameters the dispatcher returns -1 with the state unchanged (no handler called,
  nothing sent) and the event unchanged (no channel set). It reads no parameter: the
  result is the same when the parameter array is the null pointer, where any read
  would be a fault.
\<close>

theorem C10_privmsg_guard:
  assumes "command ev = ''PRIVMSG''" and "num_params ev < 2"
  shows "libtwirc_dispatch_evt e s ev = Inr (s, ev, - 1) \<and>
         libtwirc_dispatch_evt e s (ev\<lparr>params := None\<rparr>) = Inr (s, ev\<lparr>params := None\<rparr>, - 1)"
  using assms by (simp add: libtwirc_dispatch_evt_def)

theorem C10_privmsg_guard_witness:
  "decode_msg ''PRIVMSG #chan'' = Inr lone_privmsg \<and>
   command lone_privmsg = ''PRIVMSG'' \<and> num_params lone_privmsg < 2 \<and>
   libtwirc_dispatch_evt demo_env connecting_state lone_privmsg
     = Inr (connecting_state, lone_privmsg, - 1) \<and>
   libtwirc_dispatch_evt demo_env connecting_state (lone_privmsg\<lparr>params := None\<rparr>)
     = Inr (connecting_state, lone_privmsg\<lparr>params := None\<rparr>, - 1)"
proof -
  have d: "decode_msg ''PRIVMSG #chan'' = Inr lone_privmsg"
    by (simp add: decode_msg_def libtwirc_parse_tags_def libtwirc_parse_prefix_def
        libtwirc_parse_command_def libtwirc_parse_params_def lone_privmsg_def)
  have h1: "command lone_privmsg = ''PRIVMSG''"
    by (simp add: lone_privmsg_def)
  have h2: "num_params lone_privmsg < 2"
    by (simp add: lone_privmsg_def)
  from C10_privmsg_guard [OF h1 h2, of demo_env connecting_state] d h1 h2 show ?thesis
    by simp
qed

end
